theory Spec2Isabelle
  imports Main
begin

section \<open>Paths\<close>

text \<open>
  The converter manipulates \<^verbatim>\<open>pathlib.Path\<close> values.  A path is modelled as pathlib's
  POSIX flavour holds it: a root (\<open>''''\<close>, \<open>''/''\<close> or \<open>''//''\<close>) and the list of
  its components.  Paths are compared as pathlib compares them, component by component; two
  different paths naming one file (through \<^verbatim>\<open>..\<close> or a symbolic link) are different
  paths here too.
\<close>

datatype path = PurePath (root: string) (parts: "string list")

text \<open>Splitting a string at every \<^verbatim>\<open>/\<close>, as \<^verbatim>\<open>str.split('/')\<close> does.\<close>

fun split_sep :: "string \<Rightarrow> string list" where
  "split_sep [] = [[]]"
| "split_sep (c # cs) =
     (if c = CHR ''/'' then [] # split_sep cs
      else (case split_sep cs of [] \<Rightarrow> [[c]] | w # ws \<Rightarrow> (c # w) # ws))"

text \<open>
  \<^verbatim>\<open>splitroot\<close> of the POSIX flavour: exactly two leading slashes are kept as the root
  \<^verbatim>\<open>//\<close>, any other number of leading slashes is the root \<^verbatim>\<open>/\<close>.
\<close>

definition splitroot :: "string \<Rightarrow> string" where
  "splitroot s =
     (let n = length (takeWhile (\<lambda>c. c = CHR ''/'') s)
      in if n = 0 then '''' else if n = 2 then ''//'' else ''/'')"

text \<open>\<^verbatim>\<open>Path(s)\<close>: empty components and \<^verbatim>\<open>.\<close> components are dropped.\<close>

definition Path :: "string \<Rightarrow> path" where
  "Path s = PurePath (splitroot s) (filter (\<lambda>c. c \<noteq> [] \<and> c \<noteq> ''.'') (split_sep s))"

text \<open>\<^verbatim>\<open>a / b\<close> for two paths: an absolute right operand replaces the left one.\<close>

definition joinpath :: "path \<Rightarrow> path \<Rightarrow> path" where
  "joinpath a b = (if root b \<noteq> [] then b else PurePath (root a) (parts a @ parts b))"

text \<open>\<^verbatim>\<open>a / s\<close> for a string \<open>s\<close>: the string is parsed first.\<close>

definition joinpath_str :: "path \<Rightarrow> string \<Rightarrow> path" where
  "joinpath_str a s = joinpath a (Path s)"

fun intercalate :: "string \<Rightarrow> string list \<Rightarrow> string" where
  "intercalate sep [] = []"
| "intercalate sep [x] = x"
| "intercalate sep (x # y # ys) = x @ sep @ intercalate sep (y # ys)"

text \<open>\<^verbatim>\<open>str(p)\<close>; the path with no root and no component prints as \<^verbatim>\<open>.\<close>\<close>

definition str_path :: "path \<Rightarrow> string" where
  "str_path p =
     (if root p = [] \<and> parts p = [] then ''.'' else root p @ intercalate ''/'' (parts p))"

text \<open>\<^verbatim>\<open>p.name\<close>: the last component, empty when there is none.\<close>

definition name :: "path \<Rightarrow> string" where
  "name p = (if parts p = [] then [] else last (parts p))"

text \<open>\<^verbatim>\<open>p.parent\<close>: the path without its last component; a path without components is its own parent.\<close>

definition parent :: "path \<Rightarrow> path" where
  "parent p = PurePath (root p) (butlast (parts p))"

text \<open>
  \<^verbatim>\<open>name.rfind('.')\<close> as an option: the index of the last dot.
\<close>

definition rfind_dot :: "string \<Rightarrow> nat option" where
  "rfind_dot s =
     (let k = length (takeWhile (\<lambda>c. c \<noteq> CHR ''.'') (rev s))
      in if k = length s then None else Some (length s - 1 - k))"

text \<open>
  \<^verbatim>\<open>suffix\<close> and \<^verbatim>\<open>stem\<close> of a file name: the name is cut at its last dot when that
  dot is neither the first nor the last character (\<^verbatim>\<open>0 < i < len(name) - 1\<close>).
\<close>

definition suffix_of :: "string \<Rightarrow> string" where
  "suffix_of nm =
     (case rfind_dot nm of
        None \<Rightarrow> []
      | Some i \<Rightarrow> if 0 < i \<and> i + 1 < length nm then drop i nm else [])"

definition stem_of :: "string \<Rightarrow> string" where
  "stem_of nm =
     (case rfind_dot nm of
        None \<Rightarrow> nm
      | Some i \<Rightarrow> if 0 < i \<and> i + 1 < length nm then take i nm else nm)"

definition suffix :: "path \<Rightarrow> string" where
  "suffix p = suffix_of (name p)"

definition stem :: "path \<Rightarrow> string" where
  "stem p = stem_of (name p)"

section \<open>Decimal numerals\<close>

text \<open>\<^verbatim>\<open>str(n)\<close> for a non-negative integer, as the f-strings of the converter print it.\<close>

definition digit_char :: "nat \<Rightarrow> char" where
  "digit_char d = ''0123456789'' ! d"

function str_nat :: "nat \<Rightarrow> string" where
  "str_nat n = (if n < 10 then [digit_char n] else str_nat (n div 10) @ [digit_char (n mod 10)])"
  by pat_completeness auto
termination
  by (relation "measure id") auto

declare str_nat.simps [simp del]

text \<open>The number a decimal numeral stands for; it reads \<open>str_nat\<close> back.\<close>

definition digit_val :: "string \<Rightarrow> nat" where
  "digit_val s = foldl (\<lambda>acc c. 10 * acc + (of_char c - 48)) 0 s"

section \<open>Collision resolution\<close>

text \<open>
  \<^verbatim>\<open>get_unique_output_path\<close> reads the file system only through \<^verbatim>\<open>Path.exists\<close>,
  so the model takes that test as its first argument.  The \<^verbatim>\<open>while True\<close> loop has no
  bound in the source; it is a partial function whose value \<open>None\<close> stands for a loop that
  never returns.
\<close>

definition numbered :: "path \<Rightarrow> string \<Rightarrow> string \<Rightarrow> nat \<Rightarrow> path" where
  "numbered parent_dir base ext counter =
     joinpath_str parent_dir (base @ ''_'' @ str_nat counter @ ext)"

partial_function (option) unique_loop ::
  "(path \<Rightarrow> bool) \<Rightarrow> path \<Rightarrow> string \<Rightarrow> string \<Rightarrow> nat \<Rightarrow> path option" where
  "unique_loop ex parent_dir base ext counter =
     (let new_path = numbered parent_dir base ext counter
      in if \<not> ex new_path then Some new_path
         else unique_loop ex parent_dir base ext (counter + 1))"

declare unique_loop.simps [code]

definition get_unique_output_path :: "(path \<Rightarrow> bool) \<Rightarrow> path \<Rightarrow> path option" where
  "get_unique_output_path ex output_path =
     (if \<not> ex output_path then Some output_path
      else unique_loop ex (parent output_path) (stem output_path) (suffix output_path) 1)"

section \<open>The file system\<close>

text \<open>
  What the converter can observe of the file system: which paths hold something, and
  whether it is a regular file, a directory or anything else (a named pipe, a socket, a
  device).  A symbolic link looks like its target, as \<^verbatim>\<open>stat\<close> reports it, and a
  dangling link like a path that holds nothing.  The state is a list of entries, so it
  is finite, and its order stands for the order in which the operating system enumerates
  entries.  File contents, permissions and the working directory are not part of it.
\<close>

datatype node = Regular | Directory | Special

type_synonym filesystem = "(path \<times> node) list"

definition stat :: "filesystem \<Rightarrow> path \<Rightarrow> node option" where
  "stat fs p = map_of fs p"

definition exists :: "filesystem \<Rightarrow> path \<Rightarrow> bool" where
  "exists fs p = (stat fs p \<noteq> None)"

definition is_file :: "filesystem \<Rightarrow> path \<Rightarrow> bool" where
  "is_file fs p = (stat fs p = Some Regular)"

definition is_dir :: "filesystem \<Rightarrow> path \<Rightarrow> bool" where
  "is_dir fs p = (stat fs p = Some Directory)"

text \<open>
  \<^verbatim>\<open>d.rglob('*')\<close> yields every entry below \<open>d\<close>, files and directories alike, in
  the order of enumeration.
\<close>

definition is_below :: "path \<Rightarrow> path \<Rightarrow> bool" where
  "is_below d p =
     (root p = root d \<and> length (parts d) < length (parts p) \<and>
      take (length (parts d)) (parts p) = parts d)"

definition rglob :: "filesystem \<Rightarrow> path \<Rightarrow> path list" where
  "rglob fs d = filter (is_below d) (map fst fs)"

text \<open>The exceptions that reach the converter's own code.\<close>

datatype py_error =
    FileNotFoundError path
  | FileExistsError path
  | NotADirectoryError path
  | IsADirectoryError path
  | PermissionError path
  | ValueError

text \<open>
  \<^verbatim>\<open>str(e)\<close> of an operating-system error.  The message of a \<^verbatim>\<open>ValueError\<close> is never
  printed by the converter and is left empty.
\<close>

fun str_error :: "py_error \<Rightarrow> string" where
  "str_error (FileNotFoundError p) = ''[Errno 2] No such file or directory: '' @ [CHR 0x27] @ str_path p @ [CHR 0x27]"
| "str_error (FileExistsError p) = ''[Errno 17] File exists: '' @ [CHR 0x27] @ str_path p @ [CHR 0x27]"
| "str_error (NotADirectoryError p) = ''[Errno 20] Not a directory: '' @ [CHR 0x27] @ str_path p @ [CHR 0x27]"
| "str_error (IsADirectoryError p) = ''[Errno 21] Is a directory: '' @ [CHR 0x27] @ str_path p @ [CHR 0x27]"
| "str_error (PermissionError p) = ''[Errno 13] Permission denied: '' @ [CHR 0x27] @ str_path p @ [CHR 0x27]"
| "str_error ValueError = []"

text \<open>
  \<^verbatim>\<open>os.mkdir\<close>: the parent is looked up first, then the path itself.
\<close>

definition os_mkdir :: "filesystem \<Rightarrow> path \<Rightarrow> py_error + filesystem" where
  "os_mkdir fs p =
     (case stat fs (parent p) of
        None \<Rightarrow> Inl (FileNotFoundError p)
      | Some Directory \<Rightarrow>
          (case stat fs p of
             None \<Rightarrow> Inr (fs @ [(p, Directory)])
           | Some _ \<Rightarrow> Inl (FileExistsError p))
      | Some _ \<Rightarrow> Inl (NotADirectoryError p))"

text \<open>
  \<^verbatim>\<open>Path.mkdir(parents=..., exist_ok=True)\<close>, as pathlib writes it: a missing parent is
  created first when \<open>parents\<close> is set, and any other error is forgiven when the path is a
  directory already.
\<close>

function mkdir :: "filesystem \<Rightarrow> path \<Rightarrow> bool \<Rightarrow> py_error + filesystem" where
  "mkdir fs p parents =
     (case os_mkdir fs p of
        Inr fs' \<Rightarrow> Inr fs'
      | Inl (FileNotFoundError q) \<Rightarrow>
          if \<not> parents \<or> parent p = p then Inl (FileNotFoundError q)
          else (case mkdir fs (parent p) True of
                  Inl e \<Rightarrow> Inl e
                | Inr fs' \<Rightarrow> mkdir fs' p False)
      | Inl e \<Rightarrow> if is_dir fs p then Inr fs else Inl e)"
  by pat_completeness auto
termination
proof (relation "measures [\<lambda>(fs, p, parents). length (parts p), \<lambda>(fs, p, parents). if parents then 1 else 0]")
  show "wf (measures [\<lambda>(fs, p, parents). length (parts p), \<lambda>(fs, p, parents). if parents then 1 else 0])"
    by simp
next
  fix fs :: filesystem and p :: path and parents :: bool
  assume "\<not> (\<not> parents \<or> parent p = p)"
  then have "parts p \<noteq> []"
    by (cases p) (auto simp: parent_def)
  then show "((fs, parent p, True), fs, p, parents)
      \<in> measures [\<lambda>(fs, p, parents). length (parts p), \<lambda>(fs, p, parents). if parents then 1 else 0]"
    by (simp add: parent_def)
next
  fix fs fs' :: filesystem and p :: path and parents :: bool
  assume "\<not> (\<not> parents \<or> parent p = p)"
  then show "((fs', p, False), fs, p, parents)
      \<in> measures [\<lambda>(fs, p, parents). length (parts p), \<lambda>(fs, p, parents). if parents then 1 else 0]"
    by simp
qed

declare mkdir.simps [simp del]

section \<open>The environment\<close>

text \<open>
  The two collaborators outside the converter: the Docling conversion of a file, which
  returns Markdown text or raises with a message, and the operating system's right to
  refuse a write (permissions, a full disk).
\<close>

record env =
  converter :: "string \<Rightarrow> string + string"
  write_refused :: "path \<Rightarrow> bool"

text \<open>
  \<^verbatim>\<open>Path.write_text\<close>: the file is created where nothing is, and an existing regular or
  special file is written to.  The text written is not recorded.
\<close>

definition write_text :: "env \<Rightarrow> filesystem \<Rightarrow> path \<Rightarrow> py_error + filesystem" where
  "write_text e fs p =
     (case stat fs (parent p) of
        None \<Rightarrow> Inl (FileNotFoundError p)
      | Some Directory \<Rightarrow>
          (case stat fs p of
             Some Directory \<Rightarrow> Inl (IsADirectoryError p)
           | Some _ \<Rightarrow> if write_refused e p then Inl (PermissionError p) else Inr fs
           | None \<Rightarrow>
               if write_refused e p then Inl (PermissionError p)
               else Inr (fs @ [(p, Regular)]))
      | Some _ \<Rightarrow> Inl (NotADirectoryError p))"

section \<open>Progress events\<close>

text \<open>
  The records the converter prints, with the keys of their JSON form as field names.
  The key \<^verbatim>\<open>file\<close> of an event is the field \<open>ev_file\<close>, the keys \<^verbatim>\<open>input\<close> and
  \<^verbatim>\<open>output\<close> of a result are \<open>result_input\<close> and \<open>result_output\<close>, and the keys
  \<^verbatim>\<open>status\<close>, \<^verbatim>\<open>message\<close> and \<^verbatim>\<open>total\<close> of the summary carry the prefix
  \<open>summary\<close>.
\<close>

record progress_event =
  status :: string
  message :: string
  ev_file :: string
  progress :: nat
  total :: nat
  error :: string

record conversion_result =
  result_input :: string
  result_output :: string
  success :: bool

record batch_summary =
  summary_status :: string
  summary_message :: string
  successful :: nat
  failed :: nat
  summary_total :: nat
  results :: "conversion_result list"

text \<open>
  Standard output is the list of records printed so far, before their serialisation as
  JSON lines.
\<close>

datatype output_line = Progress progress_event | Summary batch_summary

definition emit_status :: "string \<Rightarrow> string \<Rightarrow> string \<Rightarrow> nat \<Rightarrow> nat \<Rightarrow> string \<Rightarrow> progress_event" where
  "emit_status st msg f prog tot err =
     \<lparr>status = st, message = msg, ev_file = f, progress = prog, total = tot, error = err\<rparr>"

section \<open>Discovery\<close>

definition SUPPORTED_EXTENSIONS :: "string set" where
  "SUPPORTED_EXTENSIONS =
     {''.pdf'', ''.docx'', ''.pptx'', ''.xlsx'', ''.html'', ''.htm'',
      ''.png'', ''.jpg'', ''.jpeg'', ''.gif'', ''.bmp'', ''.tiff'', ''.webp''}"

text \<open>
  \<^verbatim>\<open>str.lower\<close> on the letters A to Z.  No character outside them lowers to a letter of a
  supported extension.
\<close>

definition lower_char :: "char \<Rightarrow> char" where
  "lower_char c =
     (case map_of (zip ''ABCDEFGHIJKLMNOPQRSTUVWXYZ'' ''abcdefghijklmnopqrstuvwxyz'') c of
        None \<Rightarrow> c
      | Some l \<Rightarrow> l)"

definition lower :: "string \<Rightarrow> string" where
  "lower s = map lower_char s"

definition supported :: "path \<Rightarrow> bool" where
  "supported p = (lower (suffix p) \<in> SUPPORTED_EXTENSIONS)"

text \<open>The inner loop of \<^verbatim>\<open>collect_files\<close>, over the entries \<^verbatim>\<open>rglob\<close> yields.\<close>

fun collect_dir :: "filesystem \<Rightarrow> path list \<Rightarrow> path list \<Rightarrow> path list" where
  "collect_dir fs [] files = files"
| "collect_dir fs (file_path # others) files =
     (if is_file fs file_path \<and> supported file_path
      then collect_dir fs others (files @ [file_path])
      else collect_dir fs others files)"

text \<open>
  The outer loop of \<^verbatim>\<open>collect_files\<close>, with the list \<open>files\<close> it appends to and the events
  it has emitted.
\<close>

fun collect_loop ::
  "filesystem \<Rightarrow> string list \<Rightarrow> path list \<Rightarrow> progress_event list \<Rightarrow> path list \<times> progress_event list" where
  "collect_loop fs [] files evs = (files, evs)"
| "collect_loop fs (input_path # rest) files evs =
     (let p = Path input_path
      in if is_file fs p then
           (if supported p then collect_loop fs rest (files @ [p]) evs
            else collect_loop fs rest files
                   (evs @ [emit_status ''warning'' (''Unsupported file format: '' @ suffix p) (str_path p) 0 0 []]))
         else if is_dir fs p then collect_loop fs rest (collect_dir fs (rglob fs p) files) evs
         else collect_loop fs rest files
                (evs @ [emit_status ''error'' (''Path does not exist: '' @ input_path) input_path 0 0 []]))"

definition collect_files :: "filesystem \<Rightarrow> string list \<Rightarrow> path list \<times> progress_event list" where
  "collect_files fs input_paths = collect_loop fs input_paths [] []"

section \<open>Output paths\<close>

text \<open>
  \<^verbatim>\<open>relative_to\<close> raises \<^verbatim>\<open>ValueError\<close> unless the other path is a prefix of \<open>p\<close> with
  the same root.
\<close>

definition relative_to :: "path \<Rightarrow> path \<Rightarrow> py_error + path" where
  "relative_to p other =
     (if root p = root other \<and> take (length (parts other)) (parts p) = parts other
      then Inr (PurePath [] (drop (length (parts other)) (parts p)))
      else Inl ValueError)"

text \<open>
  \<^verbatim>\<open>with_suffix\<close> raises \<^verbatim>\<open>ValueError\<close> on an invalid suffix and on a path with an
  empty name.
\<close>

definition with_suffix :: "path \<Rightarrow> string \<Rightarrow> py_error + path" where
  "with_suffix p sfx =
     (if CHR ''/'' \<in> set sfx then Inl ValueError
      else if (sfx \<noteq> [] \<and> hd sfx \<noteq> CHR ''.'') \<or> sfx = ''.'' then Inl ValueError
      else if name p = [] then Inl ValueError
      else let old_suffix = suffix p;
               nm = (if old_suffix = [] then name p @ sfx
                     else take (length (name p) - length old_suffix) (name p) @ sfx)
           in Inr (PurePath (root p) (butlast (parts p) @ [nm])))"

text \<open>
  The \<^verbatim>\<open>try\<close> block of \<^verbatim>\<open>get_output_path\<close> and its handler: a \<^verbatim>\<open>ValueError\<close> of
  either call in the block leads to the handler, whose own \<^verbatim>\<open>ValueError\<close> is not caught.
\<close>

definition relative_candidate :: "path \<Rightarrow> path \<Rightarrow> path \<Rightarrow> py_error + path" where
  "relative_candidate input_file input_base output_dir =
     (case relative_to input_file input_base of
        Inl e \<Rightarrow> Inl e
      | Inr relative \<Rightarrow>
          (case with_suffix relative ''.md'' of
             Inl e \<Rightarrow> Inl e
           | Inr r \<Rightarrow> Inr (joinpath output_dir r)))"

definition candidate_path :: "path \<Rightarrow> path \<Rightarrow> path \<Rightarrow> py_error + path" where
  "candidate_path input_file input_base output_dir =
     (case relative_candidate input_file input_base output_dir of
        Inr output_path \<Rightarrow> Inr output_path
      | Inl ValueError \<Rightarrow>
          (case with_suffix input_file ''.md'' of
             Inl e \<Rightarrow> Inl e
           | Inr f \<Rightarrow> Inr (joinpath_str output_dir (name f)))
      | Inl e \<Rightarrow> Inl e)"

text \<open>
  \<^verbatim>\<open>get_output_path\<close> returns the resolved path and the file system with the parent
  directories it created; \<open>None\<close> is a collision loop that never returns.
\<close>

definition get_output_path ::
  "filesystem \<Rightarrow> path \<Rightarrow> path \<Rightarrow> path \<Rightarrow> (py_error + path \<times> filesystem) option" where
  "get_output_path fs input_file input_base output_dir =
     (case candidate_path input_file input_base output_dir of
        Inl e \<Rightarrow> Some (Inl e)
      | Inr output_path \<Rightarrow>
          (case mkdir fs (parent output_path) True of
             Inl e \<Rightarrow> Some (Inl e)
           | Inr fs' \<Rightarrow>
               (case get_unique_output_path (exists fs') output_path of
                  None \<Rightarrow> None
                | Some unique \<Rightarrow> Some (Inr (unique, fs')))))"

section \<open>Conversion\<close>

text \<open>
  \<^verbatim>\<open>convert_file\<close>: every exception of the conversion and of the write is caught, reported
  as an \<^verbatim>\<open>error\<close> event and turned into the result \<open>False\<close>.
\<close>

definition convert_file ::
  "env \<Rightarrow> filesystem \<Rightarrow> path \<Rightarrow> path \<Rightarrow> bool \<times> filesystem \<times> progress_event list" where
  "convert_file e fs input_file output_file =
     (case converter e (str_path input_file) of
        Inl msg \<Rightarrow> (False, fs, [emit_status ''error'' msg (str_path input_file) 0 0 msg])
      | Inr markdown_content \<Rightarrow>
          (case write_text e fs output_file of
             Inl err \<Rightarrow>
               (False, fs,
                [emit_status ''error'' (str_error err) (str_path input_file) 0 0 (str_error err)])
           | Inr fs' \<Rightarrow> (True, fs', [])))"

section \<open>The driver\<close>

text \<open>How a run, or a part of it, ends.\<close>

datatype flow = Completes | SysExit nat | Uncaught py_error | Hangs

text \<open>The variables of \<^verbatim>\<open>main\<close> that its loop updates, the file system and standard output.\<close>

record driver =
  st_fs :: filesystem
  st_successful :: nat
  st_failed :: nat
  st_results :: "conversion_result list"
  st_stdout :: "output_line list"

fun conversion_loop ::
  "env \<Rightarrow> path \<Rightarrow> path \<Rightarrow> nat \<Rightarrow> nat \<Rightarrow> path list \<Rightarrow> driver \<Rightarrow> flow \<times> driver" where
  "conversion_loop e input_base output_dir tot idx [] st = (Completes, st)"
| "conversion_loop e input_base output_dir tot idx (input_file # rest) st =
     (let st1 = st\<lparr>st_stdout := st_stdout st @
                  [Progress (emit_status ''converting'' (''Converting: '' @ name input_file)
                               (str_path input_file) idx tot [])]\<rparr>
      in case get_output_path (st_fs st1) input_file input_base output_dir of
           None \<Rightarrow> (Hangs, st1)
         | Some (Inl err) \<Rightarrow> (Uncaught err, st1)
         | Some (Inr (output_file, fs2)) \<Rightarrow>
             (case convert_file e fs2 input_file output_file of
                (ok, fs3, evs) \<Rightarrow>
                  if ok then
                    conversion_loop e input_base output_dir tot (idx + 1) rest
                      (st1\<lparr>st_fs := fs3,
                           st_successful := st_successful st1 + 1,
                           st_results := st_results st1 @
                             [\<lparr>result_input = str_path input_file, result_output = str_path output_file,
                               success = True\<rparr>],
                           st_stdout := st_stdout st1 @ map Progress evs @
                             [Progress (emit_status ''converted'' (''Converted: '' @ name input_file)
                                          (str_path input_file) idx tot [])]\<rparr>)
                  else
                    conversion_loop e input_base output_dir tot (idx + 1) rest
                      (st1\<lparr>st_fs := fs3,
                           st_failed := st_failed st1 + 1,
                           st_results := st_results st1 @
                             [\<lparr>result_input = str_path input_file, result_output = [], success = False\<rparr>],
                           st_stdout := st_stdout st1 @ map Progress evs\<rparr>)))"

text \<open>The base path of the relative output structure, lines 137 to 141 of the converter.\<close>

definition input_base_of :: "filesystem \<Rightarrow> string list \<Rightarrow> path list \<Rightarrow> path" where
  "input_base_of fs inputs files =
     (if length inputs = 1 \<and> is_dir fs (Path (inputs ! 0)) then Path (inputs ! 0)
      else if files \<noteq> [] then parent (files ! 0) else Path ''.'')"

text \<open>
  \<^verbatim>\<open>main\<close> up to its loop: either the run ends there, or it goes on with the file system,
  the discovered files, the base path and what has been printed.
\<close>

datatype prelude =
    Stopped flow "output_line list"
  | Proceed filesystem "path list" path "output_line list"

definition main_prelude :: "filesystem \<Rightarrow> string list \<Rightarrow> string \<Rightarrow> prelude" where
  "main_prelude fs0 inputs out_arg =
     (case mkdir fs0 (Path out_arg) True of
        Inl err \<Rightarrow> Stopped (Uncaught err) []
      | Inr fs1 \<Rightarrow>
          (let starting = [Progress (emit_status ''starting'' ''Collecting files...'' [] 0 0 [])];
               (files, evs) = collect_files fs1 inputs
           in if files = [] then
                Stopped (SysExit 1)
                  (starting @ map Progress evs @
                   [Progress (emit_status ''error'' ''No supported files found'' [] 0 0
                                ''No supported files found'')])
              else
                Proceed fs1 files (input_base_of fs1 inputs files)
                  (starting @ map Progress evs @
                   [Progress (emit_status ''ready''
                                (''Found '' @ str_nat (length files) @ '' file(s) to convert'')
                                [] 0 (length files) [])])))"

definition main :: "env \<Rightarrow> filesystem \<Rightarrow> string list \<Rightarrow> string \<Rightarrow> flow \<times> output_line list" where
  "main e fs0 inputs out_arg =
     (case main_prelude fs0 inputs out_arg of
        Stopped fl printed \<Rightarrow> (fl, printed)
      | Proceed fs1 files input_base printed \<Rightarrow>
          (case conversion_loop e input_base (Path out_arg) (length files) 1 files
                  \<lparr>st_fs = fs1, st_successful = 0, st_failed = 0, st_results = [],
                   st_stdout = printed\<rparr> of
             (Completes, st) \<Rightarrow>
               (Completes,
                st_stdout st @
                [Summary \<lparr>summary_status = ''complete'',
                          summary_message = ''Conversion complete: '' @ str_nat (st_successful st) @
                            '' succeeded, '' @ str_nat (st_failed st) @ '' failed'',
                          successful = st_successful st,
                          failed = st_failed st,
                          summary_total = length files,
                          results = st_results st\<rparr>])
           | (fl, st) \<Rightarrow> (fl, st_stdout st)))"

section \<open>Discovery as the specification words it\<close>

text \<open>
  The specification's \<^verbatim>\<open>discover\<close>, one input at a time: a regular file is kept when its
  extension is supported and warned about otherwise; a directory contributes its
  supported regular files, silently; anything else is reported as a missing path.  The
  result of discovery is the concatenation over the inputs, in input order.
\<close>

definition discover_input :: "filesystem \<Rightarrow> string \<Rightarrow> path list" where
  "discover_input fs s =
     (if is_file fs (Path s) then (if supported (Path s) then [Path s] else [])
      else if is_dir fs (Path s) then filter (\<lambda>q. is_file fs q \<and> supported q) (rglob fs (Path s))
      else [])"

definition input_events :: "filesystem \<Rightarrow> string \<Rightarrow> progress_event list" where
  "input_events fs s =
     (if is_file fs (Path s) then
        (if supported (Path s) then []
         else [emit_status ''warning'' (''Unsupported file format: '' @ suffix (Path s))
                 (str_path (Path s)) 0 0 []])
      else if is_dir fs (Path s) then []
      else [emit_status ''error'' (''Path does not exist: '' @ s) s 0 0 []])"

section \<open>Output paths as the specification words them\<close>

text \<open>
  Steps 1 and 2 of the specification's resolver: for a file below the base, the path
  relative to the base is put under the output directory, its subdirectories kept and
  the extension of its name replaced by \<^verbatim>\<open>.md\<close>; for any other file, only its name
  is put under the output directory, with the same replacement.
\<close>

definition expected_output :: "path \<Rightarrow> path \<Rightarrow> path \<Rightarrow> path" where
  "expected_output input_file input_base output_dir =
     (if is_below input_base input_file then
        PurePath (root output_dir)
          (parts output_dir @
           butlast (drop (length (parts input_base)) (parts input_file)) @
           [stem input_file @ ''.md''])
      else joinpath_str output_dir (stem input_file @ ''.md''))"

section \<open>Counting results\<close>

text \<open>The two counters of \<^verbatim>\<open>main\<close> agree with the results recorded so far.\<close>

definition counted :: "driver \<Rightarrow> bool" where
  "counted st =
     (st_successful st = length (filter success (st_results st)) \<and>
      st_failed st = length (filter (\<lambda>r. \<not> success r) (st_results st)))"

section \<open>States used as examples\<close>

text \<open>An existence test under which \<^verbatim>\<open>/o/a.md\<close> and \<^verbatim>\<open>/o/a_1.md\<close> are taken.\<close>

definition two_taken :: "path \<Rightarrow> bool" where
  "two_taken p = (p = Path ''/o/a.md'' \<or> p = Path ''/o/a_1.md'')"

text \<open>An output directory that holds \<^verbatim>\<open>a.md\<close> already, and a directory named \<^verbatim>\<open>a_1.md\<close>.\<close>

definition fs_taken :: filesystem where
  "fs_taken =
     [(Path ''/'', Directory), (Path ''/o'', Directory), (Path ''/o/a.md'', Regular),
      (Path ''/o/a_1.md'', Directory)]"

text \<open>
  A directory \<^verbatim>\<open>/d\<close> with three supported files (one with an upper-case extension), a
  text file and a subdirectory, and a named pipe \<^verbatim>\<open>/p\<close>.
\<close>

definition fs_batch :: filesystem where
  "fs_batch =
     [(Path ''/'', Directory), (Path ''/d'', Directory), (Path ''/d/a.pdf'', Regular),
      (Path ''/d/b.PDF'', Regular), (Path ''/d/sub'', Directory),
      (Path ''/d/sub/c.docx'', Regular), (Path ''/d/n.txt'', Regular), (Path ''/p'', Special)]"

text \<open>A converter that fails on \<^verbatim>\<open>/d/b.PDF\<close> only; no write is refused.\<close>

definition env_b_fails :: env where
  "env_b_fails =
     \<lparr>converter = (\<lambda>s. if s = ''/d/b.PDF'' then Inl ''cannot parse'' else Inr ''# text''),
      write_refused = (\<lambda>p. False)\<rparr>"

text \<open>
  An input tree \<^verbatim>\<open>/docs\<close> with the file \<^verbatim>\<open>x/y.pdf\<close>, and an output directory
  \<^verbatim>\<open>/out\<close>: empty in the first state, holding a regular file named \<^verbatim>\<open>x\<close> in the second.
\<close>

definition fs_docs :: filesystem where
  "fs_docs =
     [(Path ''/'', Directory), (Path ''/docs'', Directory), (Path ''/docs/x'', Directory),
      (Path ''/docs/x/y.pdf'', Regular), (Path ''/out'', Directory)]"

definition fs_blocked :: filesystem where
  "fs_blocked = fs_docs @ [(Path ''/out/x'', Regular)]"

text \<open>
  A batch of three named files, the second of which the converter fails on, and the
  summary the run prints for it.
\<close>

definition batch_inputs :: "string list" where
  "batch_inputs = [''/d/a.pdf'', ''/d/b.PDF'', ''/d/sub/c.docx'']"

definition summary_batch :: batch_summary where
  "summary_batch =
     \<lparr>summary_status = ''complete'',
      summary_message = ''Conversion complete: 2 succeeded, 1 failed'',
      successful = 2, failed = 1, summary_total = 3,
      results =
        [\<lparr>result_input = ''/d/a.pdf'', result_output = ''/out/a.md'', success = True\<rparr>,
         \<lparr>result_input = ''/d/b.PDF'', result_output = [], success = False\<rparr>,
         \<lparr>result_input = ''/d/sub/c.docx'', result_output = ''/out/sub/c.md'', success = True\<rparr>]\<rparr>"


section \<open>Path parsing and decimal numerals: auxiliary facts\<close>

lemma split_sep_ne: "split_sep s \<noteq> []"
  by (induction s) (auto split: list.splits)

lemma split_sep_nosep: "CHR ''/'' \<notin> set d \<Longrightarrow> split_sep (d @ s) = (d @ hd (split_sep s)) # tl (split_sep s)"
  using split_sep_ne by (induction d) (auto split: list.splits)

lemma split_sep_append:
  "split_sep (a @ s) = butlast (split_sep a) @ [last (split_sep a) @ hd (split_sep s)] @ tl (split_sep s)"
proof (induction a)
  case Nil
  then show ?case using split_sep_ne[of s] by (cases "split_sep s") auto
next
  case (Cons c a)
  then show ?case
    using split_sep_ne[of a] split_sep_ne[of "a @ s"]
    by (auto split: list.splits simp: butlast_append)
qed

lemma digit_char_code: "d < 10 \<Longrightarrow> of_char (digit_char d) = (48 + d :: nat)"
proof -
  assume "d < 10"
  then have "d \<in> {0,1,2,3,4,5,6,7,8,9}" by auto
  then show ?thesis by (auto simp: digit_char_def)
qed

lemma digit_val_str_nat: "digit_val (str_nat n) = n"
proof (induction n rule: str_nat.induct)
  case (1 n)
  show ?case
  proof (cases "n < 10")
    case True
    then show ?thesis by (subst str_nat.simps) (simp add: digit_val_def digit_char_code)
  next
    case False
    with 1 have "digit_val (str_nat (n div 10)) = n div 10" by simp
    with False show ?thesis
      by (subst str_nat.simps) (simp add: digit_val_def digit_char_code)
  qed
qed

lemma str_nat_inj: "str_nat m = str_nat n \<Longrightarrow> m = n"
  by (metis digit_val_str_nat)

lemma str_nat_chars: "c \<in> set (str_nat n) \<Longrightarrow> \<exists>d<10. c = digit_char d"
proof (induction n rule: str_nat.induct)
  case (1 n)
  show ?case
  proof (cases "n < 10")
    case True
    with 1(2) show ?thesis by (subst (asm) str_nat.simps) auto
  next
    case False
    have m: "n mod 10 < 10" by simp
    from False 1(2) have "c \<in> set (str_nat (n div 10)) \<or> c = digit_char (n mod 10)"
      by (subst (asm) str_nat.simps) auto
    with 1(1) False m show ?thesis by blast
  qed
qed

lemma str_nat_ne: "str_nat n \<noteq> []"
  by (subst str_nat.simps) simp

lemma digit_char_not_sep: "d < 10 \<Longrightarrow> digit_char d \<noteq> CHR ''/'' \<and> digit_char d \<noteq> CHR ''.''"
proof -
  assume "d < 10"
  then have "d \<in> {0,1,2,3,4,5,6,7,8,9}" by auto
  then show ?thesis by (auto simp: digit_char_def)
qed

lemma str_nat_nosep: "CHR ''/'' \<notin> set (str_nat n)"
proof
  assume "CHR ''/'' \<in> set (str_nat n)"
  then obtain d where "d < 10" "CHR ''/'' = digit_char d" using str_nat_chars by blast
  then show False using digit_char_not_sep[of d] by simp
qed

lemma str_nat_nodot: "CHR ''.'' \<notin> set (str_nat n)"
proof
  assume "CHR ''.'' \<in> set (str_nat n)"
  then obtain d where "d < 10" "CHR ''.'' = digit_char d" using str_nat_chars by blast
  then show False using digit_char_not_sep[of d] by simp
qed

lemma takeWhile_stop: "\<not> P c \<Longrightarrow> takeWhile P (xs @ c # ys) = takeWhile P (xs @ [c])"
  by (induction xs) auto

lemma Path_parts_mid:
  assumes "CHR ''/'' \<notin> set d" "d \<noteq> []" "\<And>x y. x @ d @ y \<noteq> ''.''"
  shows "parts (Path (a @ d @ b)) =
     filter (\<lambda>c. c \<noteq> [] \<and> c \<noteq> ''.'') (butlast (split_sep a)) @
     [last (split_sep a) @ d @ hd (split_sep b)] @
     filter (\<lambda>c. c \<noteq> [] \<and> c \<noteq> ''.'') (tl (split_sep b))"
proof -
  have "split_sep (a @ d @ b) =
      butlast (split_sep a) @ [last (split_sep a) @ d @ hd (split_sep b)] @ tl (split_sep b)"
    using assms(1) by (simp add: split_sep_append[of a] split_sep_nosep)
  then show ?thesis using assms(2,3) by (simp add: Path_def)
qed

lemma numbered_parts_inj:
  assumes "parts (numbered pd base ext j) = parts (numbered pd base ext k)"
  shows "j = k"
proof -
  let ?a = "base @ ''_''"
  have dot: "\<And>n x y. x @ str_nat n @ y \<noteq> ''.''"
  proof
    fix n x y assume e: "x @ str_nat n @ y = ''.''"
    obtain c where c: "c \<in> set (str_nat n)" using str_nat_ne[of n] by (cases "str_nat n") auto
    then have "c \<in> set (x @ str_nat n @ y)" by simp
    with e have "c = CHR ''.''" by simp
    with c show False using str_nat_nodot by blast
  qed
  have P: "\<And>n. parts (Path (?a @ str_nat n @ ext)) =
     filter (\<lambda>c. c \<noteq> [] \<and> c \<noteq> ''.'') (butlast (split_sep ?a)) @
     [last (split_sep ?a) @ str_nat n @ hd (split_sep ext)] @
     filter (\<lambda>c. c \<noteq> [] \<and> c \<noteq> ''.'') (tl (split_sep ext))"
    by (rule Path_parts_mid) (use str_nat_nosep str_nat_ne dot in auto)
  have R: "\<And>n. root (Path (?a @ str_nat n @ ext)) = root (Path ?a)"
  proof -
    fix n
    have "takeWhile (\<lambda>c. c = CHR ''/'') (?a @ str_nat n @ ext) =
          takeWhile (\<lambda>c. c = CHR ''/'') ?a"
      using takeWhile_stop[of "\<lambda>c. c = CHR ''/''" "CHR ''_''" base "str_nat n @ ext"] by simp
    then show "root (Path (?a @ str_nat n @ ext)) = root (Path ?a)"
      unfolding Path_def splitroot_def by (simp only: path.sel)
  qed
  have "parts (Path (?a @ str_nat j @ ext)) = parts (Path (?a @ str_nat k @ ext))"
    using assms R[of j] R[of k]
    by (auto simp: numbered_def joinpath_str_def joinpath_def split: if_splits)
  from this[unfolded P] have "str_nat j = str_nat k" by simp
  then show ?thesis by (rule str_nat_inj)
qed

lemma numbered_inj: "numbered pd base ext j = numbered pd base ext k \<Longrightarrow> j = k"
  using numbered_parts_inj by metis

lemma unique_loop_found:
  assumes "\<not> ex (numbered pd base ext k)" "\<forall>j. c \<le> j \<and> j < k \<longrightarrow> ex (numbered pd base ext j)" "c \<le> k"
  shows "unique_loop ex pd base ext c = Some (numbered pd base ext k)"
  using assms
proof (induction "k - c" arbitrary: c)
  case 0
  then have "c = k" by simp
  with 0 show ?case by (subst unique_loop.simps) simp
next
  case (Suc d)
  then have lt: "c < k" by simp
  with Suc.prems have e: "ex (numbered pd base ext c)" by simp
  have "unique_loop ex pd base ext (c + 1) = Some (numbered pd base ext k)"
    using Suc lt by (intro Suc.hyps(1)) auto
  with e show ?case by (subst unique_loop.simps) simp
qed

lemma free_number_exists:
  assumes "finite {p. ex p}"
  shows "\<exists>k\<ge>c. \<not> ex (numbered pd base ext k)"
proof (rule ccontr)
  assume "\<not> ?thesis"
  then have sub: "(\<lambda>k. numbered pd base ext k) ` {c..} \<subseteq> {p. ex p}" by auto
  have "inj_on (\<lambda>k. numbered pd base ext k) {c..}"
    by (rule inj_onI) (rule numbered_inj)
  then have "infinite ((\<lambda>k. numbered pd base ext k) ` {c..})"
    by (simp add: finite_image_iff infinite_Ici)
  with sub assms show False using finite_subset by blast
qed

lemma least_free_number:
  assumes "finite {p. ex p}"
  shows "\<exists>k\<ge>c. \<not> ex (numbered pd base ext k) \<and> (\<forall>j. c \<le> j \<and> j < k \<longrightarrow> ex (numbered pd base ext j))"
proof -
  let ?P = "\<lambda>k. c \<le> k \<and> \<not> ex (numbered pd base ext k)"
  from free_number_exists[OF assms] obtain k0 where "?P k0" by blast
  then have "?P (LEAST k. ?P k)" by (rule LeastI)
  moreover have "\<And>j. j < (LEAST k. ?P k) \<Longrightarrow> \<not> ?P j" by (rule not_less_Least)
  ultimately show ?thesis by blast
qed

lemma stem_suffix_name: "stem p @ suffix p = name p"
  by (simp add: stem_def suffix_def stem_of_def suffix_of_def split: option.splits)





lemma finite_exists: "finite {p. exists fs p}"
proof -
  have "{p. exists fs p} = dom (map_of fs)" by (auto simp: exists_def stat_def)
  then show ?thesis by (simp add: finite_dom_map_of)
qed

section \<open>Collision resolution: termination and first free number\<close>

text \<open>
  C8.  When only finitely many paths exist, the loop of \<^verbatim>\<open>get_unique_output_path\<close>
  returns, from whatever counter it starts: it returns the numbered path of some
  \<open>k\<close> at or above the counter, and that path does not exist.
\<close>

theorem unique_loop_terminates:
  assumes "finite {p. ex p}"
  shows "\<exists>k\<ge>counter. unique_loop ex parent_dir base ext counter = Some (numbered parent_dir base ext k)
            \<and> \<not> ex (numbered parent_dir base ext k)"
proof -
  from least_free_number[OF assms, of counter parent_dir base ext]
  obtain k where k: "counter \<le> k" "\<not> ex (numbered parent_dir base ext k)"
    "\<forall>j. counter \<le> j \<and> j < k \<longrightarrow> ex (numbered parent_dir base ext j)" by blast
  then have "unique_loop ex parent_dir base ext counter = Some (numbered parent_dir base ext k)"
    by (intro unique_loop_found) auto
  with k show ?thesis by blast
qed

lemma unique_loop_two_taken:
  "unique_loop two_taken (Path ''/o'') ''a'' ''.md'' 1 = Some (Path ''/o/a_2.md'')"
  by code_simp

theorem unique_loop_terminates_witness:
  "finite {p. two_taken p} \<and>
   unique_loop two_taken (Path ''/o'') ''a'' ''.md'' 1 = Some (Path ''/o/a_2.md'')"
proof -
  have f: "finite {p. two_taken p}"
  proof -
    have "{p. two_taken p} = {Path ''/o/a.md'', Path ''/o/a_1.md''}"
      by (auto simp: two_taken_def)
    then show ?thesis by simp
  qed
  from unique_loop_terminates[OF f, of 1 "Path ''/o''" "''a''" "''.md''"] f unique_loop_two_taken
  show ?thesis by blast
qed

lemma get_unique_output_path_least:
  "\<exists>q. get_unique_output_path (exists fs) p = Some q \<and> \<not> exists fs q \<and>
     (if \<not> exists fs p then q = p
      else \<exists>k\<ge>1. q = numbered (parent p) (stem p) (suffix p) k \<and>
             (\<forall>j. 1 \<le> j \<and> j < k \<longrightarrow> exists fs (numbered (parent p) (stem p) (suffix p) j)))"
proof (cases "exists fs p")
  case False
  then show ?thesis by (simp add: get_unique_output_path_def)
next
  case True
  from least_free_number[OF finite_exists, of 1 fs "parent p" "stem p" "suffix p"]
  obtain k where k: "1 \<le> k" "\<not> exists fs (numbered (parent p) (stem p) (suffix p) k)"
    "\<forall>j. 1 \<le> j \<and> j < k \<longrightarrow> exists fs (numbered (parent p) (stem p) (suffix p) j)" by blast
  then have "unique_loop (exists fs) (parent p) (stem p) (suffix p) 1 = Some (numbered (parent p) (stem p) (suffix p) k)"
    by (intro unique_loop_found) auto
  with True k show ?thesis by (auto simp: get_unique_output_path_def)
qed




section \<open>Discovery: what is collected\<close>

lemma collect_dir_filter:
  "collect_dir fs xs files = files @ filter (\<lambda>q. is_file fs q \<and> supported q) xs"
  by (induction xs arbitrary: files) auto

lemma collect_loop_concat:
  "collect_loop fs inputs files evs =
     (files @ concat (map (discover_input fs) inputs), evs @ concat (map (input_events fs) inputs))"
  by (induction inputs arbitrary: files evs)
     (auto simp: discover_input_def input_events_def collect_dir_filter Let_def)

lemma collect_files_append:
  "collect_files fs (xs @ ys) =
     (fst (collect_files fs xs) @ fst (collect_files fs ys),
      snd (collect_files fs xs) @ snd (collect_files fs ys))"
  by (simp add: collect_files_def collect_loop_concat)



text \<open>
  C10.  An input path that is neither a regular file nor a directory contributes no file
  and exactly the event \<^verbatim>\<open>Path does not exist\<close>, wherever it stands among the inputs
  and whether or not something exists there: a named pipe gets what the same input gets
  on the empty file system.
\<close>

theorem collect_files_neither_file_nor_dir:
  assumes "\<not> is_file fs (Path s)" "\<not> is_dir fs (Path s)"
  shows "collect_files fs (pre @ s # post) =
           (fst (collect_files fs pre) @ fst (collect_files fs post),
            snd (collect_files fs pre) @
              emit_status ''error'' (''Path does not exist: '' @ s) s 0 0 [] #
              snd (collect_files fs post)) \<and>
         collect_files fs [s] = collect_files [] [s]"
proof -
  have "collect_files fs [s] = ([], [emit_status ''error'' (''Path does not exist: '' @ s) s 0 0 []])"
    using assms by (simp add: collect_files_def)
  moreover have "collect_files [] [s] = ([], [emit_status ''error'' (''Path does not exist: '' @ s) s 0 0 []])"
    by (simp add: collect_files_def is_file_def is_dir_def stat_def)
  moreover have "collect_files fs (pre @ s # post) =
     (fst (collect_files fs pre) @ fst (collect_files fs [s]) @ fst (collect_files fs post),
      snd (collect_files fs pre) @ snd (collect_files fs [s]) @ snd (collect_files fs post))"
    using collect_files_append[of fs pre "[s] @ post"] collect_files_append[of fs "[s]" post]
    by simp
  ultimately show ?thesis by simp
qed

theorem collect_files_neither_file_nor_dir_witness:
  "exists fs_batch (Path ''/p'') \<and> \<not> is_file fs_batch (Path ''/p'') \<and> \<not> is_dir fs_batch (Path ''/p'') \<and>
   collect_files fs_batch ([''/d/a.pdf''] @ ''/p'' # [''/d/b.PDF'']) =
     ([Path ''/d/a.pdf'', Path ''/d/b.PDF''],
      [emit_status ''error'' ''Path does not exist: /p'' ''/p'' 0 0 []])"
proof -
  have 1: "exists fs_batch (Path ''/p'')" by code_simp
  have 2: "\<not> is_file fs_batch (Path ''/p'')" by code_simp
  have 3: "\<not> is_dir fs_batch (Path ''/p'')" by code_simp
  have 4: "collect_files fs_batch [''/d/a.pdf''] = ([Path ''/d/a.pdf''], [])" by code_simp
  have 5: "collect_files fs_batch [''/d/b.PDF''] = ([Path ''/d/b.PDF''], [])" by code_simp
  from collect_files_neither_file_nor_dir[OF 2 3, of "[''/d/a.pdf'']" "[''/d/b.PDF'']"] 1 2 3
  show ?thesis by (simp add: 4 5)
qed

section \<open>The base path\<close>

text \<open>
  C9.  Whenever \<^verbatim>\<open>main\<close> goes on past the computation of \<^verbatim>\<open>input_base\<close>, the list of
  discovered files is not empty, and the base is the single directory input or else the
  parent of the first discovered file: the alternative \<^verbatim>\<open>Path('.')\<close> is never taken.
\<close>

theorem input_base_fallback_unreachable:
  assumes "main_prelude fs0 inputs out_arg = Proceed fs1 files input_base printed"
  shows "files \<noteq> [] \<and> files = fst (collect_files fs1 inputs) \<and>
         input_base = (if length inputs = 1 \<and> is_dir fs1 (Path (inputs ! 0)) then Path (inputs ! 0)
                       else parent (files ! 0))"
  using assms
  by (auto simp: main_prelude_def input_base_of_def Let_def split: sum.splits prod.splits if_splits)

theorem input_base_fallback_unreachable_witness:
  "main_prelude fs_batch [''/d/sub/c.docx'', ''/p''] ''/d'' =
     Proceed fs_batch [Path ''/d/sub/c.docx''] (Path ''/d/sub'')
       [Progress (emit_status ''starting'' ''Collecting files...'' [] 0 0 []),
        Progress (emit_status ''error'' ''Path does not exist: /p'' ''/p'' 0 0 []),
        Progress (emit_status ''ready'' ''Found 1 file(s) to convert'' [] 0 1 [])] \<and>
   [Path ''/d/sub/c.docx''] \<noteq> [] \<and>
   Path ''/d/sub'' = parent ([Path ''/d/sub/c.docx''] ! 0)"
proof -
  have e: "main_prelude fs_batch [''/d/sub/c.docx'', ''/p''] ''/d'' =
     Proceed fs_batch [Path ''/d/sub/c.docx''] (Path ''/d/sub'')
       [Progress (emit_status ''starting'' ''Collecting files...'' [] 0 0 []),
        Progress (emit_status ''error'' ''Path does not exist: /p'' ''/p'' 0 0 []),
        Progress (emit_status ''ready'' ''Found 1 file(s) to convert'' [] 0 1 [])]"
    by code_simp
  have b: "Path ''/d/sub'' = parent ([Path ''/d/sub/c.docx''] ! 0)"
    by code_simp
  from input_base_fallback_unreachable[OF e] have "[Path ''/d/sub/c.docx''] \<noteq> []"
    by blast
  with e b show ?thesis by blast
qed

section \<open>Creating directories\<close>

lemma stat_append:
  "stat (fs @ [(p, n)]) q = (if stat fs q = None \<and> q = p then Some n else stat fs q)"
  by (auto simp: stat_def map_add_def split: option.splits)

lemma os_mkdir_Inr:
  "os_mkdir fs p = Inr fs' \<Longrightarrow>
     fs' = fs @ [(p, Directory)] \<and> stat fs p = None \<and> is_dir fs (parent p)"
  by (auto simp: os_mkdir_def is_dir_def split: option.splits node.splits)

lemma os_mkdir_error:
  "os_mkdir fs p = Inl e \<Longrightarrow> (\<forall>q. e \<noteq> FileNotFoundError q) \<Longrightarrow> stat fs (parent p) \<noteq> None"
  by (auto simp: os_mkdir_def split: option.splits node.splits)

text \<open>
  A \<^verbatim>\<open>mkdir\<close> that returns leaves a directory at the path, something at its parent,
  and every entry that was there as it was.
\<close>

lemma mkdir_post:
  "mkdir fs p parents = Inr fs' \<Longrightarrow>
     is_dir fs' p \<and> stat fs' (parent p) \<noteq> None \<and> (\<forall>q. stat fs q \<noteq> None \<longrightarrow> stat fs' q = stat fs q)"
proof (induction fs p parents arbitrary: fs' rule: mkdir.induct)
  case (1 fs p parents)
  show ?case
  proof (cases "os_mkdir fs p")
    case (Inr fs1)
    with "1.prems" have "fs' = fs1" by (subst (asm) mkdir.simps) simp
    with os_mkdir_Inr[OF Inr] show ?thesis
      by (auto simp: is_dir_def stat_append)
  next
    case (Inl e)
    show ?thesis
    proof (cases "\<exists>q. e = FileNotFoundError q")
      case True
      then obtain q where e: "e = FileNotFoundError q" by blast
      from "1.prems" Inl e have go: "\<not> (\<not> parents \<or> parent p = p)"
        by (subst (asm) mkdir.simps) (auto split: if_splits)
      from "1.prems" Inl e go obtain fs1 where
        a: "mkdir fs (parent p) True = Inr fs1" and b: "mkdir fs1 p False = Inr fs'"
        by (subst (asm) mkdir.simps) (auto split: if_splits sum.splits)
      from "1.IH"(1)[OF Inl e go a]
      have A: "is_dir fs1 (parent p)" "\<forall>q. stat fs q \<noteq> None \<longrightarrow> stat fs1 q = stat fs q" by auto
      from "1.IH"(2)[OF Inl e go a b]
      have B: "is_dir fs' p" "stat fs' (parent p) \<noteq> None" "\<forall>q. stat fs1 q \<noteq> None \<longrightarrow> stat fs' q = stat fs1 q"
        by auto
      from A B show ?thesis by auto
    next
      case False
      with "1.prems" Inl have "is_dir fs p" "fs' = fs"
        by (subst (asm) mkdir.simps; cases e; auto split: if_splits)+
      with os_mkdir_error[OF Inl] False show ?thesis by auto
    qed
  qed
qed

lemma mkdir_idem:
  assumes "mkdir fs p parents = Inr fs'"
  shows "mkdir fs' p parents' = Inr fs'"
proof -
  from mkdir_post[OF assms] have d: "is_dir fs' p" and par: "stat fs' (parent p) \<noteq> None" by auto
  from par obtain y where y: "stat fs' (parent p) = Some y" by auto
  have "os_mkdir fs' p = Inl (FileExistsError p) \<or> os_mkdir fs' p = Inl (NotADirectoryError p)"
    using d y by (cases y) (auto simp: os_mkdir_def is_dir_def)
  then obtain e where e: "os_mkdir fs' p = Inl e" "\<forall>q. e \<noteq> FileNotFoundError q"
    by auto
  with d show ?thesis by (subst mkdir.simps) (cases e; auto)
qed

section \<open>Output path resolution\<close>

lemma stem_of_take: "take (length nm - length (suffix_of nm)) nm = stem_of nm"
  by (auto simp: stem_of_def suffix_of_def split: option.splits)

lemma suffix_of_empty_stem: "suffix_of nm = [] \<Longrightarrow> stem_of nm = nm"
  by (auto simp: stem_of_def suffix_of_def split: option.splits if_splits)

lemma with_suffix_md:
  "name p \<noteq> [] \<Longrightarrow> with_suffix p ''.md'' = Inr (PurePath (root p) (butlast (parts p) @ [stem p @ ''.md'']))"
  by (simp add: with_suffix_def Let_def stem_def suffix_def stem_of_take suffix_of_empty_stem)

lemma with_suffix_empty: "name p = [] \<Longrightarrow> with_suffix p ''.md'' = Inl ValueError"
  by (simp add: with_suffix_def)

lemma name_last: "name (PurePath r (xs @ [x])) = x"
  by (simp add: name_def)

lemma relative_candidate_below:
  assumes "is_below input_base input_file" "name input_file \<noteq> []"
  shows "relative_candidate input_file input_base output_dir =
           Inr (PurePath (root output_dir)
                  (parts output_dir @
                   butlast (drop (length (parts input_base)) (parts input_file)) @
                   [stem input_file @ ''.md'']))"
proof -
  let ?rel = "PurePath [] (drop (length (parts input_base)) (parts input_file))"
  from assms(1) have r: "relative_to input_file input_base = Inr ?rel"
    and ne: "drop (length (parts input_base)) (parts input_file) \<noteq> []"
    by (auto simp: is_below_def relative_to_def)
  from ne have nm: "name ?rel = name input_file"
    by (auto simp: name_def last_drop)
  with assms(2) have "with_suffix ?rel ''.md'' =
      Inr (PurePath [] (butlast (drop (length (parts input_base)) (parts input_file)) @ [stem input_file @ ''.md'']))"
    by (simp add: with_suffix_md stem_def)
  with r show ?thesis by (simp add: relative_candidate_def joinpath_def)
qed

lemma relative_candidate_not_below:
  assumes "\<not> is_below input_base input_file"
  shows "relative_candidate input_file input_base output_dir = Inl ValueError"
proof (cases "relative_to input_file input_base")
  case (Inl e)
  then have "e = ValueError" by (auto simp: relative_to_def split: if_splits)
  with Inl show ?thesis by (simp add: relative_candidate_def)
next
  case (Inr rel)
  then have p: "root input_file = root input_base"
      "take (length (parts input_base)) (parts input_file) = parts input_base"
      and rel: "rel = PurePath [] (drop (length (parts input_base)) (parts input_file))"
    by (auto simp: relative_to_def split: if_splits)
  from p(2) have "length (parts input_base) \<le> length (parts input_file)"
    by (metis length_take min.cobounded1)
  moreover from assms p have "\<not> length (parts input_base) < length (parts input_file)"
    unfolding is_below_def by blast
  ultimately have "length (parts input_file) = length (parts input_base)"
    by linarith
  with rel have "name rel = []" by (simp add: name_def)
  with Inr show ?thesis by (simp add: relative_candidate_def with_suffix_empty)
qed

lemma candidate_path_expected:
  assumes "name input_file \<noteq> []"
  shows "candidate_path input_file input_base output_dir =
           Inr (expected_output input_file input_base output_dir)"
proof (cases "is_below input_base input_file")
  case True
  with assms show ?thesis
    by (simp add: candidate_path_def relative_candidate_below expected_output_def)
next
  case False
  with assms show ?thesis
    by (simp add: candidate_path_def relative_candidate_not_below expected_output_def
        with_suffix_md name_last)
qed

text \<open>
  C5.  For every file with a name, and so for every discovered file, the candidate
  output path is the one the specification describes: below the base, the relative path
  with its subdirectories under the output directory and \<^verbatim>\<open>.md\<close> for the extension;
  otherwise the name alone under the output directory.  When the parent directories
  can be created and nothing exists at the candidate, it is the resolved path.
\<close>

theorem get_output_path_structure:
  assumes "name input_file \<noteq> []"
  shows "candidate_path input_file input_base output_dir =
           Inr (expected_output input_file input_base output_dir) \<and>
         (mkdir fs (parent (expected_output input_file input_base output_dir)) True = Inr fs' \<and>
          \<not> exists fs' (expected_output input_file input_base output_dir) \<longrightarrow>
          get_output_path fs input_file input_base output_dir =
            Some (Inr (expected_output input_file input_base output_dir, fs')))"
  using candidate_path_expected[OF assms]
  by (simp add: get_output_path_def get_unique_output_path_def)

theorem get_output_path_structure_witness:
  "name (Path ''/docs/x/y.pdf'') \<noteq> [] \<and>
   is_below (Path ''/docs'') (Path ''/docs/x/y.pdf'') \<and>
   expected_output (Path ''/docs/x/y.pdf'') (Path ''/docs'') (Path ''/out'') = Path ''/out/x/y.md'' \<and>
   mkdir fs_docs (parent (Path ''/out/x/y.md'')) True = Inr (fs_docs @ [(Path ''/out/x'', Directory)]) \<and>
   \<not> exists (fs_docs @ [(Path ''/out/x'', Directory)]) (Path ''/out/x/y.md'') \<and>
   get_output_path fs_docs (Path ''/docs/x/y.pdf'') (Path ''/docs'') (Path ''/out'') =
     Some (Inr (Path ''/out/x/y.md'', fs_docs @ [(Path ''/out/x'', Directory)])) \<and>
   \<not> is_below (Path ''/else'') (Path ''/docs/x/y.pdf'') \<and>
   candidate_path (Path ''/docs/x/y.pdf'') (Path ''/else'') (Path ''/out'') = Inr (Path ''/out/y.md'')"
proof -
  have n: "name (Path ''/docs/x/y.pdf'') \<noteq> []" by code_simp
  have b: "is_below (Path ''/docs'') (Path ''/docs/x/y.pdf'')" by code_simp
  have e: "expected_output (Path ''/docs/x/y.pdf'') (Path ''/docs'') (Path ''/out'') = Path ''/out/x/y.md''"
    by code_simp
  have m: "mkdir fs_docs (parent (Path ''/out/x/y.md'')) True = Inr (fs_docs @ [(Path ''/out/x'', Directory)])"
    by code_simp
  have x: "\<not> exists (fs_docs @ [(Path ''/out/x'', Directory)]) (Path ''/out/x/y.md'')"
    by code_simp
  have b2: "\<not> is_below (Path ''/else'') (Path ''/docs/x/y.pdf'')" by code_simp
  have e2: "expected_output (Path ''/docs/x/y.pdf'') (Path ''/else'') (Path ''/out'') = Path ''/out/y.md''"
    by code_simp
  from get_output_path_structure[OF n, of "Path ''/docs''" "Path ''/out''" fs_docs
      "fs_docs @ [(Path ''/out/x'', Directory)]"] m x
  have g: "get_output_path fs_docs (Path ''/docs/x/y.pdf'') (Path ''/docs'') (Path ''/out'') =
     Some (Inr (Path ''/out/x/y.md'', fs_docs @ [(Path ''/out/x'', Directory)]))"
    unfolding e by blast
  from get_output_path_structure[OF n, of "Path ''/else''" "Path ''/out''"]
  have c2: "candidate_path (Path ''/docs/x/y.pdf'') (Path ''/else'') (Path ''/out'') = Inr (Path ''/out/y.md'')"
    unfolding e2 by blast
  from n b e m x g b2 c2 show ?thesis by blast
qed

text \<open>
  C7.  When output-path resolution returns a path, resolving again in the file system
  it left, with no write in between, returns the same path and leaves the file system
  as it is.
\<close>

theorem get_output_path_idempotent:
  assumes "get_output_path fs input_file input_base output_dir = Some (Inr (resolved, fs'))"
  shows "get_output_path fs' input_file input_base output_dir = Some (Inr (resolved, fs'))"
proof -
  from assms obtain cand where
    c: "candidate_path input_file input_base output_dir = Inr cand" and
    m: "mkdir fs (parent cand) True = Inr fs'" and
    u: "get_unique_output_path (exists fs') cand = Some resolved"
    by (auto simp: get_output_path_def split: sum.splits option.splits)
  from mkdir_idem[OF m] c u show ?thesis by (simp add: get_output_path_def)
qed

theorem get_output_path_idempotent_witness:
  "get_output_path fs_taken (Path ''/in/a.pdf'') (Path ''/in'') (Path ''/o'') =
     Some (Inr (Path ''/o/a_2.md'', fs_taken)) \<and>
   get_output_path fs_docs (Path ''/docs/x/y.pdf'') (Path ''/docs'') (Path ''/out'') =
     Some (Inr (Path ''/out/x/y.md'', fs_docs @ [(Path ''/out/x'', Directory)])) \<and>
   get_output_path (fs_docs @ [(Path ''/out/x'', Directory)]) (Path ''/docs/x/y.pdf'') (Path ''/docs'') (Path ''/out'') =
     Some (Inr (Path ''/out/x/y.md'', fs_docs @ [(Path ''/out/x'', Directory)]))"
proof -
  have 1: "get_output_path fs_taken (Path ''/in/a.pdf'') (Path ''/in'') (Path ''/o'') =
     Some (Inr (Path ''/o/a_2.md'', fs_taken))"
    by code_simp
  have 2: "get_output_path fs_docs (Path ''/docs/x/y.pdf'') (Path ''/docs'') (Path ''/out'') =
     Some (Inr (Path ''/out/x/y.md'', fs_docs @ [(Path ''/out/x'', Directory)]))"
    by code_simp
  from get_output_path_idempotent[OF 1] get_output_path_idempotent[OF 2] 1 2
  show ?thesis by blast
qed

section \<open>The conversion loop\<close>

text \<open>
  Whatever way the loop ends, it prints no summary and keeps the counters in step with
  the results; when it completes, it has recorded one result per file, in order.
\<close>

lemma conversion_loop_invariant:
  assumes "conversion_loop e input_base output_dir tot idx files st = (fl, st')"
  shows "(\<forall>s. Summary s \<in> set (st_stdout st') \<longrightarrow> Summary s \<in> set (st_stdout st)) \<and>
         (counted st \<longrightarrow> counted st') \<and>
         (fl = Completes \<longrightarrow>
            map result_input (st_results st') =
              map result_input (st_results st) @ map str_path files)"
  using assms
proof (induction files arbitrary: idx st)
  case Nil
  then show ?case by simp
next
  case (Cons f rest)
  let ?st1 = "st\<lparr>st_stdout := st_stdout st @
       [Progress (emit_status ''converting'' (''Converting: '' @ name f) (str_path f) idx tot [])]\<rparr>"
  show ?case
  proof (cases "get_output_path (st_fs st) f input_base output_dir")
    case None
    with Cons.prems show ?thesis by (auto simp: counted_def)
  next
    case (Some r)
    show ?thesis
    proof (cases r)
      case (Inl err)
      with Some Cons.prems show ?thesis by (auto simp: counted_def)
    next
      case (Inr pr)
      obtain output_file fs2 where pr: "pr = (output_file, fs2)" by (cases pr)
      obtain ok fs3 evs where cf: "convert_file e fs2 f output_file = (ok, fs3, evs)"
        by (cases "convert_file e fs2 f output_file")
      show ?thesis
      proof (cases ok)
        case True
        let ?st2 = "?st1\<lparr>st_fs := fs3, st_successful := st_successful ?st1 + 1,
            st_results := st_results ?st1 @
              [\<lparr>result_input = str_path f, result_output = str_path output_file, success = True\<rparr>],
            st_stdout := st_stdout ?st1 @ map Progress evs @
              [Progress (emit_status ''converted'' (''Converted: '' @ name f) (str_path f) idx tot [])]\<rparr>"
        from Cons.prems Some Inr pr cf True
        have "conversion_loop e input_base output_dir tot (idx + 1) rest ?st2 = (fl, st')"
          by simp
        from Cons.IH[OF this] show ?thesis by (auto simp: counted_def)
      next
        case False
        let ?st2 = "?st1\<lparr>st_fs := fs3, st_failed := st_failed ?st1 + 1,
            st_results := st_results ?st1 @
              [\<lparr>result_input = str_path f, result_output = [], success = False\<rparr>],
            st_stdout := st_stdout ?st1 @ map Progress evs\<rparr>"
        from Cons.prems Some Inr pr cf False
        have "conversion_loop e input_base output_dir tot (idx + 1) rest ?st2 = (fl, st')"
          by simp
        from Cons.IH[OF this] show ?thesis by (auto simp: counted_def)
      qed
    qed
  qed
qed

lemma main_prelude_no_summary:
  "main_prelude fs0 inputs out_arg = Stopped fl printed \<Longrightarrow> Summary s \<notin> set printed"
  "main_prelude fs0 inputs out_arg = Proceed fs1 files b printed \<Longrightarrow> Summary s \<notin> set printed"
  by (auto simp: main_prelude_def Let_def split: sum.splits prod.splits if_splits)

lemma main_prelude_files:
  "main_prelude fs0 inputs out_arg = Proceed fs1 files b printed \<Longrightarrow>
     mkdir fs0 (Path out_arg) True = Inr fs1 \<and> files = fst (collect_files fs1 inputs) \<and> files \<noteq> []"
  by (auto simp: main_prelude_def Let_def split: sum.splits prod.splits if_splits)

lemma main_summary_elim:
  assumes "Summary s \<in> set (snd (main e fs0 inputs out_arg))"
  shows "\<exists>fs1 files base printed st.
           main_prelude fs0 inputs out_arg = Proceed fs1 files base printed \<and>
           conversion_loop e base (Path out_arg) (length files) 1 files
             \<lparr>st_fs = fs1, st_successful = 0, st_failed = 0, st_results = [], st_stdout = printed\<rparr> =
             (Completes, st) \<and>
           successful s = st_successful st \<and> failed s = st_failed st \<and>
           summary_total s = length files \<and> results s = st_results st"
proof (cases "main_prelude fs0 inputs out_arg")
  case (Stopped fl printed)
  with assms main_prelude_no_summary(1)[OF Stopped] show ?thesis
    by (simp add: main_def)
next
  case (Proceed fs1 files b printed)
  let ?st0 = "\<lparr>st_fs = fs1, st_successful = 0, st_failed = 0, st_results = [], st_stdout = printed\<rparr>"
  obtain fl st where loop: "conversion_loop e b (Path out_arg) (length files) 1 files ?st0 = (fl, st)"
    by (cases "conversion_loop e b (Path out_arg) (length files) 1 files ?st0")
  from conversion_loop_invariant[OF loop] main_prelude_no_summary(2)[OF Proceed]
  have nos: "Summary s \<notin> set (st_stdout st)" by auto
  have fin: "fl = Completes"
  proof (rule ccontr)
    assume "fl \<noteq> Completes"
    with loop Proceed have "snd (main e fs0 inputs out_arg) = st_stdout st"
      by (cases fl) (simp_all add: main_def)
    with assms nos show False by simp
  qed
  with loop Proceed assms nos
  have "s = \<lparr>summary_status = ''complete'',
       summary_message = ''Conversion complete: '' @ str_nat (st_successful st) @
          '' succeeded, '' @ str_nat (st_failed st) @ '' failed'',
       successful = st_successful st, failed = st_failed st,
       summary_total = length files, results = st_results st\<rparr>"
    by (simp add: main_def)
  with Proceed loop fin show ?thesis by simp
qed

text \<open>
  C1.  When a run prints a summary, its counts add up to its total, the total is the
  number of discovered files, and its results are those of the discovered files, one
  each and in discovery order; the two counts are the numbers of successful and of
  failed results.
\<close>

theorem summary_counts:
  assumes "Summary s \<in> set (snd (main e fs0 inputs out_arg))"
  shows "\<exists>fs1. mkdir fs0 (Path out_arg) True = Inr fs1 \<and>
           successful s + failed s = summary_total s \<and>
           summary_total s = length (fst (collect_files fs1 inputs)) \<and>
           map result_input (results s) = map str_path (fst (collect_files fs1 inputs)) \<and>
           successful s = length (filter success (results s)) \<and>
           failed s = length (filter (\<lambda>r. \<not> success r) (results s))"
proof -
  from main_summary_elim[OF assms] obtain fs1 files base printed st where
    pre: "main_prelude fs0 inputs out_arg = Proceed fs1 files base printed" and
    loop: "conversion_loop e base (Path out_arg) (length files) 1 files
             \<lparr>st_fs = fs1, st_successful = 0, st_failed = 0, st_results = [], st_stdout = printed\<rparr> =
             (Completes, st)" and
    s: "successful s = st_successful st" "failed s = st_failed st"
       "summary_total s = length files" "results s = st_results st"
    by blast
  note inv = conversion_loop_invariant[OF loop]
  have "counted \<lparr>st_fs = fs1, st_successful = 0, st_failed = 0, st_results = [], st_stdout = printed\<rparr>"
    by (simp add: counted_def)
  with inv have c: "counted st" by blast
  from inv have m: "map result_input (st_results st) = map str_path files" by simp
  then have "length (st_results st) = length files" by (metis length_map)
  moreover have "length (filter success (st_results st)) +
      length (filter (\<lambda>r. \<not> success r) (st_results st)) = length (st_results st)"
    by (rule sum_length_filter_compl)
  ultimately have t: "st_successful st + st_failed st = length files"
    using c by (simp add: counted_def)
  from main_prelude_files[OF pre] s t m c show ?thesis
    by (auto simp: counted_def)
qed

lemma main_batch_summary_in:
  "Summary summary_batch \<in> set (snd (main env_b_fails fs_batch batch_inputs ''/out''))"
  by code_simp

lemma mkdir_batch: "mkdir fs_batch (Path ''/out'') True = Inr (fs_batch @ [(Path ''/out'', Directory)])"
  by code_simp


theorem summary_counts_witness:
  "Summary summary_batch \<in> set (snd (main env_b_fails fs_batch batch_inputs ''/out'')) \<and>
   successful summary_batch + failed summary_batch = summary_total summary_batch \<and>
   summary_total summary_batch =
     length (fst (collect_files (fs_batch @ [(Path ''/out'', Directory)]) batch_inputs)) \<and>
   map result_input (results summary_batch) =
     map str_path (fst (collect_files (fs_batch @ [(Path ''/out'', Directory)]) batch_inputs))"
proof -
  from summary_counts[OF main_batch_summary_in] obtain fs1 where
    "mkdir fs_batch (Path ''/out'') True = Inr fs1"
    "successful summary_batch + failed summary_batch = summary_total summary_batch"
    "summary_total summary_batch = length (fst (collect_files fs1 batch_inputs))"
    "map result_input (results summary_batch) = map str_path (fst (collect_files fs1 batch_inputs))"
    by blast
  with mkdir_batch main_batch_summary_in show ?thesis by simp
qed

section \<open>Failure isolation\<close>

















section \<open>How a run ends\<close>

lemma get_output_path_returns: "get_output_path fs f input_base output_dir \<noteq> None"
proof (cases "candidate_path f input_base output_dir")
  case (Inl err)
  then show ?thesis by (simp add: get_output_path_def)
next
  case (Inr cand)
  show ?thesis
  proof (cases "mkdir fs (parent cand) True")
    case (Inl err)
    with Inr show ?thesis by (simp add: get_output_path_def)
  next
    case (Inr fs')
    from get_unique_output_path_least[of fs' cand] obtain q where
      "get_unique_output_path (exists fs') cand = Some q" by blast
    with Inr \<open>candidate_path f input_base output_dir = Inr cand\<close> show ?thesis
      by (simp add: get_output_path_def)
  qed
qed

lemma conversion_loop_flow:
  assumes "conversion_loop e input_base output_dir tot idx files st = (fl, st')"
  shows "fl \<noteq> Hangs \<and> (\<forall>n. fl \<noteq> SysExit n)"
  using assms
proof (induction files arbitrary: idx st)
  case Nil
  then show ?case by auto
next
  case (Cons f rest)
  from get_output_path_returns[of "st_fs st" f input_base output_dir]
  obtain r where r: "get_output_path (st_fs st) f input_base output_dir = Some r" by auto
  show ?case
  proof (cases r)
    case (Inl err)
    with r Cons.prems show ?thesis by auto
  next
    case (Inr pr)
    obtain output_file fs2 where pr: "pr = (output_file, fs2)" by (cases pr)
    obtain ok fs3 evs where cf: "convert_file e fs2 f output_file = (ok, fs3, evs)"
      by (cases "convert_file e fs2 f output_file")
    from Cons.prems r Inr pr cf obtain st2 where
      "conversion_loop e input_base output_dir tot (idx + 1) rest st2 = (fl, st')"
      by (cases ok) auto
    from Cons.IH[OF this] show ?thesis .
  qed
qed

text \<open>
  A run never hangs, and it ends through \<^verbatim>\<open>sys.exit\<close> exactly when the output
  directory could be created and discovery found nothing; the exit status is then 1.
\<close>

lemma main_never_hangs: "fst (main e fs0 inputs out_arg) \<noteq> Hangs"
proof (cases "main_prelude fs0 inputs out_arg")
  case (Stopped fl printed)
  then show ?thesis
    by (auto simp: main_def main_prelude_def Let_def split: sum.splits prod.splits if_splits)
next
  case (Proceed fs1 files b printed)
  let ?st0 = "\<lparr>st_fs = fs1, st_successful = 0, st_failed = 0, st_results = [], st_stdout = printed\<rparr>"
  obtain fl st where loop: "conversion_loop e b (Path out_arg) (length files) 1 files ?st0 = (fl, st)"
    by (cases "conversion_loop e b (Path out_arg) (length files) 1 files ?st0")
  from conversion_loop_flow[OF loop] Proceed loop show ?thesis
    by (cases fl) (simp_all add: main_def)
qed

lemma main_sys_exit_iff:
  "fst (main e fs0 inputs out_arg) = SysExit n \<longleftrightarrow>
     n = 1 \<and> (\<exists>fs1. mkdir fs0 (Path out_arg) True = Inr fs1 \<and> fst (collect_files fs1 inputs) = [])"
proof (cases "main_prelude fs0 inputs out_arg")
  case (Stopped fl printed)
  then show ?thesis
    by (auto simp: main_def main_prelude_def Let_def split: sum.splits prod.splits if_splits)
next
  case (Proceed fs1 files b printed)
  let ?st0 = "\<lparr>st_fs = fs1, st_successful = 0, st_failed = 0, st_results = [], st_stdout = printed\<rparr>"
  obtain fl st where loop: "conversion_loop e b (Path out_arg) (length files) 1 files ?st0 = (fl, st)"
    by (cases "conversion_loop e b (Path out_arg) (length files) 1 files ?st0")
  from conversion_loop_flow[OF loop] Proceed loop have "fst (main e fs0 inputs out_arg) \<noteq> SysExit n"
    by (cases fl) (simp_all add: main_def)
  with main_prelude_files[OF Proceed] show ?thesis by auto
qed

text \<open>
  C3.  One file is discovered below \<^verbatim>\<open>/docs\<close>, and the output directory holds a regular
  file where the subdirectory \<^verbatim>\<open>x\<close> of its output would go.  Creating that directory
  raises \<^verbatim>\<open>FileExistsError\<close> inside \<^verbatim>\<open>get_output_path\<close>, which \<^verbatim>\<open>main\<close> calls
  outside any \<^verbatim>\<open>try\<close>: the run ends on the uncaught exception after three progress
  events, with no summary and no \<^verbatim>\<open>error\<close> event.
\<close>

theorem main_aborts_when_directory_blocked:
  "fst (collect_files fs_blocked [''/docs'']) = [Path ''/docs/x/y.pdf''] \<and>
   main env_b_fails fs_blocked [''/docs''] ''/out'' =
     (Uncaught (FileExistsError (Path ''/out/x'')),
      [Progress (emit_status ''starting'' ''Collecting files...'' [] 0 0 []),
       Progress (emit_status ''ready'' ''Found 1 file(s) to convert'' [] 0 1 []),
       Progress (emit_status ''converting'' ''Converting: y.pdf'' ''/docs/x/y.pdf'' 1 1 [])])"
  by code_simp

end
